theory Spec2Isabelle
  imports Complex_Main
begin

section \<open>Servo state engine of the modular controller (hardware.py, controller\_input.py, web\_interface.py)\<close>

text \<open>
  The Python modules keep their state in module-level globals. The model threads one
  record through every function. Python floats are idealised as \<^typ>\<open>real\<close>; every
  raise of the source is a value of \<open>error\<close>, returned next to the state as it stands
  at the moment of the raise (an exception does not undo earlier stores).
\<close>

subsection \<open>config.py\<close>

definition SERVO_CHANNELS :: "int list" where
  "SERVO_CHANNELS = [0, 1, 2, 3]"

subsection \<open>Data\<close>

datatype direction = Up | Down | Left | Right | Neutral

datatype error = KeyError | TypeError | OverflowError | DeviceError

datatype ctype = PS3 | PS | Xbox | Generic

text \<open>
  \<open>servo_positions\<close>, \<open>servo_directions\<close>, \<open>hold_state\<close>, \<open>lock_state\<close> and
  \<open>servo_speed\<close> are the globals of hardware.py. The two dictionaries
  \<open>servo_positions\<close> and \<open>hold_state\<close> are shared objects: the importing modules mutate
  them in place. \<open>lock_state\<close> and \<open>servo_speed\<close> are immutable values, and
  \<^verbatim>\<open>from hardware import lock_state, servo_speed\<close> gives controller\_input.py and
  web\_interface.py bindings of their own, which their \<^verbatim>\<open>global\<close> statements rebind:
  \<open>ci_lock_state\<close>, \<open>ci_servo_speed\<close> and \<open>web_lock_state\<close>.
\<close>

record state =
  servo_positions :: "int \<rightharpoonup> int"
  servo_directions :: "int \<rightharpoonup> direction"
  hold_state :: "int \<rightharpoonup> bool"
  lock_state :: bool
  servo_speed :: real
  controller_type :: "ctype option"
  q_pressed :: bool
  exit_flag :: bool
  ci_lock_state :: bool
  ci_servo_speed :: real
  web_lock_state :: bool

definition initial_channels :: "'a \<Rightarrow> int \<rightharpoonup> 'a" where
  "initial_channels v = [0 \<mapsto> v, 1 \<mapsto> v, 2 \<mapsto> v, 3 \<mapsto> v]"

text \<open>The globals as the modules initialise them, for a session with controller kind \<open>ct\<close>.\<close>

definition initial_state :: "ctype option \<Rightarrow> state" where
  "initial_state ct =
     \<lparr> servo_positions = initial_channels 90,
       servo_directions = initial_channels Neutral,
       hold_state = initial_channels False,
       lock_state = False,
       servo_speed = 1,
       controller_type = ct,
       q_pressed = False,
       exit_flag = False,
       ci_lock_state = False,
       ci_servo_speed = 1,
       web_lock_state = False \<rparr>"

subsection \<open>Axis transform\<close>

text \<open>\<^verbatim>\<open>int(x)\<close> on a float truncates towards zero.\<close>

definition py_int :: "real \<Rightarrow> int" where
  "py_int x = (if 0 \<le> x then \<lfloor>x\<rfloor> else \<lceil>x\<rceil>)"

text \<open>
  \<^verbatim>\<open>angle = int(((value + 32767) / 65534) * 180)\<close>. The quotient and the product are
  binary64 values in Python, reals here; a result beyond the binary64 range raises
  OverflowError (from the division, or from \<^verbatim>\<open>int\<close> applied to an infinity),
  which the model cuts at \<open>2 ^ 1024\<close>.
\<close>

definition joystick_to_angle :: "int \<Rightarrow> error + int" where
  "joystick_to_angle v =
     (let x = (real_of_int (v + 32767) / 65534) * 180
      in if 2 ^ 1024 \<le> \<bar>x\<bar> then Inl OverflowError else Inr (py_int x))"

subsection \<open>Servo state store (hardware.py)\<close>

text \<open>
  The PWM write of \<open>set_servo_position\<close> goes to an external device and its failure is
  caught and logged inside the function, so it leaves no trace in the state.
\<close>

definition set_servo_position :: "int \<Rightarrow> int \<Rightarrow> state \<Rightarrow> (error + bool) \<times> state" where
  "set_servo_position channel angle s =
     (if channel \<notin> set SERVO_CHANNELS then (Inr False, s)
      else case servo_positions s channel of
        None \<Rightarrow> (Inl KeyError, s)
      | Some p \<Rightarrow>
          let d = (if angle > p then (if channel \<in> {1, 2} then Up else Right)
                   else if angle < p then (if channel \<in> {1, 2} then Down else Left)
                   else Neutral);
              s1 = s\<lparr>servo_directions := (servo_directions s)(channel \<mapsto> d)\<rparr>;
              angle' = max 0 (min 180 angle)
          in (Inr True, s1\<lparr>servo_positions := (servo_positions s1)(channel \<mapsto> angle')\<rparr>))"

text \<open>\<open>move_servo\<close> returns \<^verbatim>\<open>None\<close> when suppressed, else the pair (old position, angle).\<close>

definition move_servo :: "int \<Rightarrow> int \<Rightarrow> state \<Rightarrow> (error + (int \<times> int) option) \<times> state" where
  "move_servo channel v s =
     (if lock_state s then (Inr None, s)
      else case hold_state s channel of
        None \<Rightarrow> (Inl KeyError, s)
      | Some True \<Rightarrow> (Inr None, s)
      | Some False \<Rightarrow>
          (case servo_positions s channel of
             None \<Rightarrow> (Inl KeyError, s)
           | Some old_position \<Rightarrow>
               (case joystick_to_angle v of
                  Inl e \<Rightarrow> (Inl e, s)
                | Inr angle \<Rightarrow>
                    (case set_servo_position channel angle s of
                       (Inl e, s') \<Rightarrow> (Inl e, s')
                     | (Inr _, s') \<Rightarrow> (Inr (Some (old_position, angle)), s')))))"

text \<open>The loop of \<open>move_all_servos\<close> over the channels still to visit, with the results so far.\<close>

fun move_all_loop ::
  "int list \<Rightarrow> int \<Rightarrow> (int \<rightharpoonup> int \<times> int) \<Rightarrow> state \<Rightarrow> (error + (int \<rightharpoonup> int \<times> int)) \<times> state" where
  "move_all_loop [] angle results s = (Inr results, s)"
| "move_all_loop (channel # rest) angle results s =
     (case hold_state s channel of
        None \<Rightarrow> (Inl KeyError, s)
      | Some True \<Rightarrow> move_all_loop rest angle results s
      | Some False \<Rightarrow>
          (case servo_positions s channel of
             None \<Rightarrow> (Inl KeyError, s)
           | Some old_position \<Rightarrow>
               (case set_servo_position channel angle s of
                  (Inl e, s') \<Rightarrow> (Inl e, s')
                | (Inr _, s') \<Rightarrow>
                    move_all_loop rest angle (results(channel \<mapsto> (old_position, angle))) s')))"

definition move_all_servos ::
  "int \<Rightarrow> state \<Rightarrow> (error + (int \<rightharpoonup> int \<times> int) option) \<times> state" where
  "move_all_servos angle s =
     (if lock_state s then (Inr None, s)
      else case move_all_loop SERVO_CHANNELS angle Map.empty s of
        (Inl e, s') \<Rightarrow> (Inl e, s')
      | (Inr results, s') \<Rightarrow> (Inr (Some results), s'))"

text \<open>A movement command, and the state a caller that absorbs the exception goes on with.\<close>

datatype move = MoveServo int int | MoveAllServos int

fun do_move :: "move \<Rightarrow> state \<Rightarrow> state" where
  "do_move (MoveServo channel v) s = snd (move_servo channel v s)"
| "do_move (MoveAllServos angle) s = snd (move_all_servos angle s)"

definition do_moves :: "move list \<Rightarrow> state \<Rightarrow> state" where
  "do_moves ms s = foldl (\<lambda>s m. do_move m s) s ms"

subsection \<open>Input event router (controller\_input.py)\<close>

text \<open>
  The event codes of the Linux input subsystem, as \<^verbatim>\<open>evdev.ecodes\<close> exports them.
\<close>

definition EV_KEY :: int where "EV_KEY = 1"
definition EV_ABS :: int where "EV_ABS = 3"
definition BTN_SOUTH :: int where "BTN_SOUTH = 304"
definition BTN_EAST :: int where "BTN_EAST = 305"
definition BTN_NORTH :: int where "BTN_NORTH = 307"
definition BTN_WEST :: int where "BTN_WEST = 308"
definition BTN_TL :: int where "BTN_TL = 310"
definition BTN_TR :: int where "BTN_TR = 311"
definition BTN_DPAD_UP :: int where "BTN_DPAD_UP = 544"
definition BTN_DPAD_DOWN :: int where "BTN_DPAD_DOWN = 545"
definition BTN_DPAD_LEFT :: int where "BTN_DPAD_LEFT = 546"
definition BTN_DPAD_RIGHT :: int where "BTN_DPAD_RIGHT = 547"
definition KEY_Q :: int where "KEY_Q = 16"

text \<open>An input event: its timestamp (seconds, microseconds), type, code and value.\<close>

record event =
  ev_sec :: int
  ev_usec :: int
  ev_type :: int
  ev_code :: int
  ev_value :: int

text \<open>\<^verbatim>\<open>hold_state[ch] = not hold_state[ch]\<close>; a missing key raises before the store.\<close>

definition toggle_hold_state :: "int \<Rightarrow> state \<Rightarrow> state" where
  "toggle_hold_state ch s =
     (case hold_state s ch of
        None \<Rightarrow> s
      | Some b \<Rightarrow> s\<lparr>hold_state := (hold_state s)(ch \<mapsto> \<not> b)\<rparr>)"

text \<open>
  The double press: the first press sets \<open>q_pressed\<close>, a press that finds it set sets
  \<open>exit_flag\<close>. Nothing in controller\_input.py clears \<open>q_pressed\<close>.
\<close>

definition exit_press :: "state \<Rightarrow> state" where
  "exit_press s = (if q_pressed s then s\<lparr>exit_flag := True\<rparr> else s\<lparr>q_pressed := True\<rparr>)"

definition is_ps :: "state \<Rightarrow> bool" where
  "is_ps s = (controller_type s = Some PS3 \<or> controller_type s = Some PS)"

text \<open>
  The axis branch. An exception of the first \<open>move_servo\<close> leaves the \<^verbatim>\<open>try\<close> block, so
  the right-stick test is reached only when the left-stick part returned.
\<close>

definition handle_axis :: "event \<Rightarrow> state \<Rightarrow> state" where
  "handle_axis e s =
     (let r1 = (if ev_code e = 0 then move_servo 0 (ev_value e) s
                else if ev_code e = 1 then move_servo 1 (ev_value e) s
                else (Inr None, s))
      in case r1 of
           (Inl err, s1) \<Rightarrow> s1
         | (Inr _, s1) \<Rightarrow>
             (if is_ps s1 then
                (if ev_code e = 2 then snd (move_servo 2 (ev_value e) s1)
                 else if ev_code e = 3 then snd (move_servo 3 (ev_value e) s1)
                 else s1)
              else
                (if ev_code e = 5 then snd (move_servo 3 (ev_value e) s1)
                 else if ev_code e = 4 then snd (move_servo 2 (ev_value e) s1)
                 else s1)))"

definition handle_button :: "event \<Rightarrow> state \<Rightarrow> state" where
  "handle_button e s =
     (let c = ev_code e in
      if is_ps s then
        (if c = 304 then toggle_hold_state 0 s
         else if c = 305 then toggle_hold_state 1 s
         else if c = 308 then toggle_hold_state 2 s
         else if c = 307 then toggle_hold_state 3 s
         else if c = 294 then s\<lparr>ci_servo_speed := max (ci_servo_speed s - 0.1) 0.1\<rparr>
         else if c = 295 then s\<lparr>ci_servo_speed := min (ci_servo_speed s + 0.1) 2.0\<rparr>
         else if c = 298 then snd (move_all_servos 0 s)
         else if c = 299 then snd (move_all_servos 180 s)
         else if c = 288 then s
         else if c = 291 then snd (move_all_servos 90 s)
         else if c = 300 then snd (move_all_servos 90 s)
         else if c = 302 then s\<lparr>ci_lock_state := \<not> ci_lock_state s\<rparr>
         else if c = 303 then snd (move_all_servos 0 s)
         else if c = 301 then snd (move_all_servos 180 s)
         else if c = 292 then exit_press s
         else s)
      else
        (if c = BTN_SOUTH then toggle_hold_state 0 s
         else if c = BTN_EAST then toggle_hold_state 1 s
         else if c = BTN_WEST then toggle_hold_state 2 s
         else if c = BTN_NORTH then toggle_hold_state 3 s
         else if c = BTN_TL then s\<lparr>ci_servo_speed := max (ci_servo_speed s - 0.1) 0.1\<rparr>
         else if c = BTN_TR then s\<lparr>ci_servo_speed := min (ci_servo_speed s + 0.1) 2.0\<rparr>
         else if c = BTN_DPAD_UP then snd (move_all_servos 90 s)
         else if c = BTN_DPAD_DOWN then s\<lparr>ci_lock_state := \<not> ci_lock_state s\<rparr>
         else if c = BTN_DPAD_LEFT then snd (move_all_servos 0 s)
         else if c = BTN_DPAD_RIGHT then snd (move_all_servos 180 s)
         else if c = KEY_Q then exit_press s
         else s))"

text \<open>
  One pass of the loop body below the \<open>exit_flag\<close> test. The inner \<^verbatim>\<open>except\<close> logs
  and goes on; \<open>update_display\<close> only reads.
\<close>

definition handle_event :: "event \<Rightarrow> state \<Rightarrow> state" where
  "handle_event e s =
     (if ev_type e = EV_ABS then handle_axis e s
      else if ev_type e = EV_KEY \<and> ev_value e = 1 then handle_button e s
      else s)"

text \<open>
  \<open>handle_controller_input\<close> on the events the device has delivered so far: the loop
  leaves at the first event that finds \<open>exit_flag\<close> set.
\<close>

fun handle_controller_input :: "event list \<Rightarrow> state \<Rightarrow> state" where
  "handle_controller_input [] s = s"
| "handle_controller_input (e # es) s =
     (if exit_flag s then s else handle_controller_input es (handle_event e s))"

subsection \<open>Request handlers (web\_interface.py)\<close>

datatype jvalue = JInt int | JBool bool | JNull

text \<open>
  A JSON object as the list of its items; \<^verbatim>\<open>request.get_json()\<close> gives \<open>None\<close> or
  an object. Numbers with a fraction and strings are left out of \<open>jvalue\<close>.
\<close>

type_synonym json = "(string \<times> jvalue) list"

datatype failure = InvalidChannel | MissingAngle | Raised error

datatype response = Success json | Failure failure nat

definition int_of_jvalue :: "jvalue \<Rightarrow> error + int" where
  "int_of_jvalue v =
     (case v of JInt n \<Rightarrow> Inr n | JBool b \<Rightarrow> Inr (if b then 1 else 0) | JNull \<Rightarrow> Inl TypeError)"

definition bool_of_jvalue :: "jvalue \<Rightarrow> bool" where
  "bool_of_jvalue v = (case v of JInt n \<Rightarrow> n \<noteq> 0 | JBool b \<Rightarrow> b | JNull \<Rightarrow> False)"

text \<open>\<^verbatim>\<open>data and key in data\<close>, giving the value under the key.\<close>

definition field :: "json option \<Rightarrow> string \<Rightarrow> jvalue option" where
  "field data key = (case data of None \<Rightarrow> None | Some d \<Rightarrow> map_of d key)"

text \<open>POST /api/servo/<channel>. The route converter admits natural numbers only.\<close>

definition control_servo :: "nat \<Rightarrow> json option \<Rightarrow> state \<Rightarrow> response \<times> state" where
  "control_servo channel data s =
     (if int channel \<notin> set SERVO_CHANNELS then (Failure InvalidChannel 400, s)
      else case field data ''angle'' of
        None \<Rightarrow> (Failure MissingAngle 400, s)
      | Some v \<Rightarrow>
          (case int_of_jvalue v of
             Inl e \<Rightarrow> (Failure (Raised e) 500, s)
           | Inr angle \<Rightarrow>
               (case set_servo_position (int channel) angle s of
                  (Inl e, s') \<Rightarrow> (Failure (Raised e) 500, s')
                | (Inr _, s') \<Rightarrow>
                    (Success [(''success'', JBool True), (''channel'', JInt (int channel)),
                              (''angle'', JInt angle)], s'))))"

text \<open>POST /api/servo/lock. The \<^verbatim>\<open>global lock_state\<close> of this module is \<open>web_lock_state\<close>.\<close>

definition toggle_lock :: "json option \<Rightarrow> state \<Rightarrow> response \<times> state" where
  "toggle_lock data s =
     (let l = (case field data ''lock'' of
                 Some v \<Rightarrow> bool_of_jvalue v
               | None \<Rightarrow> \<not> web_lock_state s)
      in (Success [(''success'', JBool True), (''lock_state'', JBool l)],
          s\<lparr>web_lock_state := l\<rparr>))"

subsection \<open>Sensor sampler (hardware.py)\<close>

record mpu_snapshot =
  accel_x :: real
  accel_y :: real
  accel_z :: real
  gyro_x :: real
  gyro_y :: real
  gyro_z :: real
  temp :: real
  direction_x :: direction
  direction_y :: direction
  direction_z :: direction

text \<open>The device, by what each of its three queries answers in the tick at hand.\<close>

record mpu6050 =
  get_accel_data :: "error + real \<times> real \<times> real"
  get_gyro_data :: "error + real \<times> real \<times> real"
  get_temp :: "error + real"

record mpu_state =
  mpu_connected :: bool
  mpu :: "mpu6050 option"
  mpu_data :: mpu_snapshot

definition initial_mpu_data :: mpu_snapshot where
  "initial_mpu_data =
     \<lparr> accel_x = 0, accel_y = 0, accel_z = 0, gyro_x = 0, gyro_y = 0, gyro_z = 0, temp = 0,
       direction_x = Neutral, direction_y = Neutral, direction_z = Neutral \<rparr>"

text \<open>The hardware branch: each reading is stored as soon as its query has answered.\<close>

definition read_device :: "mpu6050 \<Rightarrow> mpu_snapshot \<Rightarrow> mpu_snapshot" where
  "read_device dev d =
     (case get_accel_data dev of
        Inl e \<Rightarrow> d
      | Inr (ax, ay, az) \<Rightarrow>
          let d1 = d\<lparr>accel_x := ax, accel_y := ay, accel_z := az\<rparr> in
          (case get_gyro_data dev of
             Inl e \<Rightarrow> d1
           | Inr (gx, gy, gz) \<Rightarrow>
               let d2 = d1\<lparr>gyro_x := gx, gyro_y := gy, gyro_z := gz\<rparr> in
               (case get_temp dev of
                  Inl e \<Rightarrow> d2
                | Inr t \<Rightarrow>
                    let threshold = 0.5 in
                    d2\<lparr>temp := t,
                       direction_x :=
                         (if ax > threshold then Right else if ax < - threshold then Left
                          else Neutral),
                       direction_y :=
                         (if ay > threshold then Up else if ay < - threshold then Down
                          else Neutral),
                       direction_z :=
                         (if az > 9.8 + threshold then Up else if az < 9.8 - threshold then Down
                          else Neutral)\<rparr>)))"

text \<open>The simulation branch; \<open>now k\<close> is what the \<open>k\<close>-th call of \<^verbatim>\<open>time.time()\<close> returns.\<close>

definition simulate :: "(nat \<Rightarrow> real) \<Rightarrow> mpu_snapshot \<Rightarrow> mpu_snapshot" where
  "simulate now d =
     (let d1 = d\<lparr>accel_x := sin (now 0 * 0.5) * 0.5,
                 accel_y := cos (now 1 * 0.7) * 0.5,
                 accel_z := 9.8 + sin (now 2 * 0.3) * 0.2,
                 gyro_x := sin (now 3 * 0.2) * 2,
                 gyro_y := cos (now 4 * 0.4) * 2,
                 gyro_z := sin (now 5 * 0.6) * 2,
                 temp := 25 + sin (now 6 * 0.1) * 0.5\<rparr>;
          threshold = 0.3
      in d1\<lparr>direction_x :=
              (if accel_x d1 > threshold then Right else if accel_x d1 < - threshold then Left
               else Neutral),
            direction_y :=
              (if accel_y d1 > threshold then Up else if accel_y d1 < - threshold then Down
               else Neutral),
            direction_z :=
              (if accel_z d1 > 9.8 + threshold then Up
               else if accel_z d1 < 9.8 - threshold then Down
               else Neutral)\<rparr>)"

definition update_mpu_data :: "(nat \<Rightarrow> real) \<Rightarrow> mpu_state \<Rightarrow> mpu_state" where
  "update_mpu_data now m =
     (case (mpu_connected m, mpu m) of
        (True, Some dev) \<Rightarrow> m\<lparr>mpu_data := read_device dev (mpu_data m)\<rparr>
      | _ \<Rightarrow> m\<lparr>mpu_data := simulate now (mpu_data m)\<rparr>)"

subsection \<open>Call sequences and the specification's wording\<close>

text \<open>A call of the servo state store from any of its callers; an exception is absorbed.\<close>

datatype call = SetServoPosition int int | Move move

fun do_call :: "call \<Rightarrow> state \<Rightarrow> state" where
  "do_call (SetServoPosition channel angle) s = snd (set_servo_position channel angle s)"
| "do_call (Move m) s = do_move m s"

definition do_calls :: "call list \<Rightarrow> state \<Rightarrow> state" where
  "do_calls cs s = foldl (\<lambda>s c. do_call c s) s cs"

text \<open>
  Every configured channel has its entry in \<open>servo_positions\<close> and \<open>hold_state\<close>, as in
  the dictionaries the module creates (no code removes a key).
\<close>

definition complete :: "state \<Rightarrow> bool" where
  "complete s = list_all (\<lambda>c. servo_positions s c \<noteq> None \<and> hold_state s c \<noteq> None) SERVO_CHANNELS"

text \<open>
  The contract of \<open>angleFromAxis\<close> in the words of the specification:
  \<open>round(((raw + 32767) / 65534) * 180)\<close>.
\<close>

definition spec_angleFromAxis :: "int \<Rightarrow> int" where
  "spec_angleFromAxis raw = round ((real_of_int (raw + 32767) / 65534) * 180)"

text \<open>A press of the button with the given code, stamped with the second it happens in.\<close>

definition press :: "int \<Rightarrow> int \<Rightarrow> event" where
  "press sec c = \<lparr> ev_sec = sec, ev_usec = 0, ev_type = EV_KEY, ev_code = c, ev_value = 1 \<rparr>"

text \<open>Every stored angle lies in the servo's range.\<close>

definition in_range :: "state \<Rightarrow> bool" where
  "in_range s = (\<forall>c p. servo_positions s c = Some p \<longrightarrow> 0 \<le> p \<and> p \<le> 180)"

text \<open>The initial state with channel 1 put on hold.\<close>

definition held1 :: state where
  "held1 = (initial_state (Some PS3))\<lparr>hold_state := (initial_channels False)(1 \<mapsto> True)\<rparr>"

text \<open>
  The state after one press of D-pad Down (code 302) on a PS3 controller, and after one
  POST /api/servo/lock whose JSON body is \<^verbatim>\<open>null\<close>, each from the initial state.
\<close>

definition after_dpad_down :: state where
  "after_dpad_down = handle_controller_input [press 0 302] (initial_state (Some PS3))"

definition after_api_lock :: state where
  "after_api_lock = snd (toggle_lock None (initial_state None))"

text \<open>
  A clock that stands at 0, three devices of which one query each raises, and two sampler
  states.
\<close>

definition clock0 :: "nat \<Rightarrow> real" where
  "clock0 k = 0"

definition gyro_fails :: mpu6050 where
  "gyro_fails =
     \<lparr> get_accel_data = Inr (1, 2, 10), get_gyro_data = Inl DeviceError, get_temp = Inr 25 \<rparr>"

definition accel_fails :: mpu6050 where
  "accel_fails =
     \<lparr> get_accel_data = Inl DeviceError, get_gyro_data = Inr (3, 4, 5), get_temp = Inr 25 \<rparr>"

definition temp_fails :: mpu6050 where
  "temp_fails =
     \<lparr> get_accel_data = Inr (1, 2, 10), get_gyro_data = Inr (3, 4, 5), get_temp = Inl DeviceError \<rparr>"

definition with_device :: "mpu6050 \<Rightarrow> mpu_state" where
  "with_device dev = \<lparr> mpu_connected = True, mpu = Some dev, mpu_data = initial_mpu_data \<rparr>"

definition no_device :: mpu_state where
  "no_device = \<lparr> mpu_connected = False, mpu = None, mpu_data = initial_mpu_data \<rparr>"

section \<open>Properties\<close>

subsection \<open>What the store operations touch\<close>

lemma set_servo_position_hold:
  "hold_state (snd (set_servo_position c a s)) = hold_state s"
  by (simp add: set_servo_position_def Let_def split: option.splits)

lemma set_servo_position_lock:
  "lock_state (snd (set_servo_position c a s)) = lock_state s"
  by (simp add: set_servo_position_def Let_def split: option.splits)

lemma set_servo_position_other:
  "c' \<noteq> c \<Longrightarrow> servo_positions (snd (set_servo_position c a s)) c' = servo_positions s c'"
  by (simp add: set_servo_position_def Let_def split: option.splits)

lemma set_servo_position_stored:
  "c \<in> set SERVO_CHANNELS \<Longrightarrow> servo_positions s c = Some p \<Longrightarrow>
   set_servo_position c a s =
     (Inr True,
      s\<lparr>servo_directions := (servo_directions s)
           (c \<mapsto> if a > p then (if c \<in> {1, 2} then Up else Right)
                 else if a < p then (if c \<in> {1, 2} then Down else Left) else Neutral),
        servo_positions := (servo_positions s)(c \<mapsto> max 0 (min 180 a))\<rparr>)"
  by (simp add: set_servo_position_def Let_def)

lemma snd_case_result:
  "snd (case r of (Inl e, s') \<Rightarrow> (g e, s') | (Inr x, s') \<Rightarrow> (f x, s')) = snd r"
  by (simp split: prod.splits sum.splits)

lemma snd_move_servo:
  "snd (move_servo c v s) =
     (if lock_state s \<or> hold_state s c \<noteq> Some False \<or> servo_positions s c = None then s
      else case joystick_to_angle v of
             Inl e \<Rightarrow> s
           | Inr a \<Rightarrow> snd (set_servo_position c a s))"
  by (simp add: move_servo_def snd_case_result split: option.splits bool.splits sum.splits)

lemma snd_move_all_servos:
  "snd (move_all_servos a s) =
     (if lock_state s then s else snd (move_all_loop SERVO_CHANNELS a Map.empty s))"
  by (simp add: move_all_servos_def snd_case_result)

subsection \<open>Lock invariant\<close>

lemma do_move_locked: "lock_state s \<Longrightarrow> do_move m s = s"
  by (cases m) (simp_all add: move_servo_def move_all_servos_def)

lemma do_moves_locked: "lock_state s \<Longrightarrow> do_moves ms s = s"
  unfolding do_moves_def by (induction ms arbitrary: s) (simp_all add: do_move_locked)

text \<open>
  C2. While \<open>lock_state\<close> of hardware.py is true, no sequence of \<open>move_servo\<close> and
  \<open>move_all_servos\<close> calls changes the stored angle of any channel (the whole state
  stays as it was).
\<close>

theorem lock_invariant:
  assumes "lock_state s"
  shows "servo_positions (do_moves ms s) = servo_positions s \<and> do_moves ms s = s"
  using assms by (simp add: do_moves_locked)

theorem lock_invariant_witness:
  "lock_state ((initial_state (Some PS3))\<lparr>lock_state := True\<rparr>) \<and>
   servo_positions
     (do_moves [MoveServo 0 32767, MoveAllServos 0, MoveServo 3 (- 32767)]
        ((initial_state (Some PS3))\<lparr>lock_state := True\<rparr>)) 0 = Some 90"
  using lock_invariant [of "(initial_state (Some PS3))\<lparr>lock_state := True\<rparr>"
      "[MoveServo 0 32767, MoveAllServos 0, MoveServo 3 (- 32767)]"]
  by (simp add: initial_state_def initial_channels_def)

subsection \<open>Hold invariant\<close>

lemma move_all_loop_hold:
  "hold_state (snd (move_all_loop cs a r s)) = hold_state s"
proof (induction cs arbitrary: r s)
  case Nil
  then show ?case by simp
next
  case (Cons c cs)
  obtain res s' where r: "set_servo_position c a s = (res, s')"
    by (cases "set_servo_position c a s")
  then have "hold_state s' = hold_state s"
    using set_servo_position_hold [of c a s] by simp
  then show ?case
    using r Cons.IH by (simp split: option.splits bool.splits sum.splits)
qed

lemma move_all_loop_held:
  "hold_state s ch = Some True \<Longrightarrow>
   servo_positions (snd (move_all_loop cs a r s)) ch = servo_positions s ch"
proof (induction cs arbitrary: r s)
  case Nil
  then show ?case by simp
next
  case (Cons c cs)
  obtain res s' where r: "set_servo_position c a s = (res, s')"
    by (cases "set_servo_position c a s")
  have h: "hold_state s' = hold_state s"
    using r set_servo_position_hold [of c a s] by simp
  have p: "c \<noteq> ch \<Longrightarrow> servo_positions s' ch = servo_positions s ch"
    using r set_servo_position_other [of ch c a s] by simp
  show ?case
  proof (cases "hold_state s c = Some False \<and> servo_positions s c \<noteq> None")
    case True
    then have "c \<noteq> ch" using Cons.prems by auto
    then show ?thesis
      using True r h p Cons.IH [of s'] Cons.prems by (cases res) auto
  next
    case False
    then show ?thesis
      using Cons by (auto split: option.splits bool.splits)
  qed
qed

lemma move_all_loop_positions:
  assumes "\<forall>c \<in> set cs. c \<in> set SERVO_CHANNELS \<and> servo_positions s c \<noteq> None \<and> hold_state s c \<noteq> None"
  shows "servo_positions (snd (move_all_loop cs a r s)) c' =
          (if c' \<in> set cs \<and> hold_state s c' = Some False then Some (max 0 (min 180 a))
           else servo_positions s c')"
  using assms
proof (induction cs arbitrary: r s)
  case Nil
  then show ?case by simp
next
  case (Cons c cs)
  from Cons.prems obtain p b where c: "c \<in> set SERVO_CHANNELS" "servo_positions s c = Some p"
    "hold_state s c = Some b" by auto
  show ?case
  proof (cases b)
    case True
    have "\<forall>x \<in> set cs. x \<in> set SERVO_CHANNELS \<and> servo_positions s x \<noteq> None \<and> hold_state s x \<noteq> None"
      using Cons.prems by simp
    from Cons.IH [OF this] show ?thesis using c True by auto
  next
    case False
    obtain s' where st: "set_servo_position c a s = (Inr True, s')"
      using set_servo_position_stored [OF c(1,2)] by simp
    have h: "hold_state s' = hold_state s"
      using set_servo_position_hold [of c a s] st by simp
    have pc: "servo_positions s' c = Some (max 0 (min 180 a))"
      using set_servo_position_stored [OF c(1,2), of a] st by simp
    have po: "\<And>x. x \<noteq> c \<Longrightarrow> servo_positions s' x = servo_positions s x"
      using set_servo_position_other [of _ c a s] st by simp
    have pre: "\<forall>x \<in> set cs. x \<in> set SERVO_CHANNELS \<and> servo_positions s' x \<noteq> None \<and> hold_state s' x \<noteq> None"
      using Cons.prems h pc po by (metis list.set_intros(2) option.distinct(1))
    have ih: "servo_positions (snd (move_all_loop cs a (r(c \<mapsto> (p, a))) s')) c' =
          (if c' \<in> set cs \<and> hold_state s' c' = Some False then Some (max 0 (min 180 a))
           else servo_positions s' c')"
      using pre by (rule Cons.IH)
    have step: "move_all_loop (c # cs) a r s = move_all_loop cs a (r(c \<mapsto> (p, a))) s'"
      using c False by (simp add: st)
    show ?thesis
    proof (cases "c' = c")
      case True
      then show ?thesis
        unfolding step ih h using pc c False by simp
    next
      case ne: False
      then show ?thesis
        unfolding step ih h using po [OF ne] by simp
    qed
  qed
qed

text \<open>
  C3. For a configured channel on hold, \<open>move_servo\<close> leaves its stored angle as it was
  whatever \<open>lock_state\<close> is, and so does \<open>move_all_servos\<close>; with the lock off and every
  channel present in the dictionaries, \<open>move_all_servos\<close> sets exactly the channels that
  are configured and not on hold (to the clamped angle) and no other.
\<close>

theorem hold_invariant:
  assumes "ch \<in> set SERVO_CHANNELS" and "hold_state s ch = Some True"
  shows "servo_positions (snd (move_servo ch v s)) ch = servo_positions s ch \<and>
         servo_positions (snd (move_all_servos a s)) ch = servo_positions s ch \<and>
         (\<not> lock_state s \<and> complete s \<longrightarrow>
            (\<forall>c. servo_positions (snd (move_all_servos a s)) c =
                   (if c \<in> set SERVO_CHANNELS \<and> hold_state s c = Some False
                    then Some (max 0 (min 180 a)) else servo_positions s c)))"
proof (intro conjI impI allI)
  show "servo_positions (snd (move_servo ch v s)) ch = servo_positions s ch"
    using assms(2) by (simp add: snd_move_servo)
  show "servo_positions (snd (move_all_servos a s)) ch = servo_positions s ch"
    using assms(2) by (simp add: snd_move_all_servos move_all_loop_held)
next
  fix c
  assume a: "\<not> lock_state s \<and> complete s"
  then have "\<forall>c \<in> set SERVO_CHANNELS. c \<in> set SERVO_CHANNELS \<and> servo_positions s c \<noteq> None \<and> hold_state s c \<noteq> None"
    by (simp add: complete_def list_all_iff)
  from move_all_loop_positions [OF this, of a Map.empty c] a
  show "servo_positions (snd (move_all_servos a s)) c =
          (if c \<in> set SERVO_CHANNELS \<and> hold_state s c = Some False
           then Some (max 0 (min 180 a)) else servo_positions s c)"
    by (simp add: snd_move_all_servos)
qed

theorem hold_invariant_witness:
  "1 \<in> set SERVO_CHANNELS \<and> hold_state held1 1 = Some True \<and>
   \<not> lock_state held1 \<and> complete held1 \<and>
   servo_positions (snd (move_servo 1 32767 held1)) 1 = Some 90 \<and>
   servo_positions (snd (move_all_servos 0 held1)) 1 = Some 90 \<and>
   servo_positions (snd (move_all_servos 0 held1)) 0 = Some 0 \<and>
   servo_positions (snd (move_all_servos 0 held1)) 2 = Some 0 \<and>
   servo_positions (snd (move_all_servos 0 held1)) 3 = Some 0"
proof -
  have h: "1 \<in> set SERVO_CHANNELS" "hold_state held1 1 = Some True"
    by (simp_all add: SERVO_CHANNELS_def held1_def initial_state_def initial_channels_def)
  have c: "\<not> lock_state held1 \<and> complete held1"
    by (auto simp: complete_def SERVO_CHANNELS_def held1_def initial_state_def initial_channels_def)
  have p: "servo_positions held1 1 = Some 90"
    by (simp add: held1_def initial_state_def initial_channels_def)
  have f: "hold_state held1 0 = Some False" "hold_state held1 2 = Some False"
    "hold_state held1 3 = Some False"
    by (simp_all add: held1_def initial_state_def initial_channels_def)
  note t = hold_invariant [OF h, of 32767 0]
  from t have m: "servo_positions (snd (move_servo 1 32767 held1)) 1 = servo_positions held1 1"
    by (rule conjunct1)
  from t have k: "servo_positions (snd (move_all_servos 0 held1)) 1 = servo_positions held1 1"
    by (rule conjunct1 [OF conjunct2])
  from t c have n: "\<And>c. servo_positions (snd (move_all_servos 0 held1)) c =
      (if c \<in> set SERVO_CHANNELS \<and> hold_state held1 c = Some False
       then Some (max 0 (min 180 0)) else servo_positions held1 c)"
    by blast
  have "servo_positions (snd (move_all_servos 0 held1)) 0 = Some 0"
    "servo_positions (snd (move_all_servos 0 held1)) 2 = Some 0"
    "servo_positions (snd (move_all_servos 0 held1)) 3 = Some 0"
    using f by (simp_all add: n SERVO_CHANNELS_def)
  with h c m k p show ?thesis by simp
qed

subsection \<open>Angle bounds\<close>

lemma set_servo_position_range:
  assumes "servo_positions (snd (set_servo_position c a s)) c' = Some q"
    and "\<forall>p. servo_positions s c' = Some p \<longrightarrow> 0 \<le> p \<and> p \<le> 180"
  shows "0 \<le> q \<and> q \<le> 180"
  using assms
  by (auto simp: set_servo_position_def Let_def split: if_splits option.splits)

lemma in_range_set: "in_range s \<Longrightarrow> in_range (snd (set_servo_position c a s))"
  unfolding in_range_def using set_servo_position_range by blast

lemma move_servo_cases:
  "snd (move_servo c v s) = s \<or> (\<exists>a. snd (move_servo c v s) = snd (set_servo_position c a s))"
  by (auto simp: snd_move_servo split: sum.splits)

lemma in_range_move_servo: "in_range s \<Longrightarrow> in_range (snd (move_servo c v s))"
  using move_servo_cases [of c v s] in_range_set by metis

lemma in_range_loop: "in_range s \<Longrightarrow> in_range (snd (move_all_loop cs a r s))"
proof (induction cs arbitrary: r s)
  case Nil
  then show ?case by simp
next
  case (Cons c cs)
  show ?case
  proof (cases "hold_state s c")
    case None
    then show ?thesis using Cons.prems by simp
  next
    case (Some b)
    show ?thesis
    proof (cases b)
      case True
      then show ?thesis using Some Cons by simp
    next
      case False
      show ?thesis
      proof (cases "servo_positions s c")
        case None
        then show ?thesis using Some False Cons.prems by simp
      next
        case (Some p)
        obtain res s' where r: "set_servo_position c a s = (res, s')" by (cases "set_servo_position c a s")
        then have "in_range s'" using in_range_set [OF Cons.prems, of c a] by simp
        then show ?thesis
          using Some \<open>hold_state s c = Some b\<close> False r Cons.IH
          by (cases res) simp_all
      qed
    qed
  qed
qed

lemma in_range_move_all: "in_range s \<Longrightarrow> in_range (snd (move_all_servos a s))"
  by (simp add: snd_move_all_servos in_range_loop)

lemma in_range_do_call: "in_range s \<Longrightarrow> in_range (do_call c s)"
proof (cases c)
  case (SetServoPosition ch a)
  assume "in_range s"
  then show ?thesis using SetServoPosition by (simp add: in_range_set)
next
  case (Move m)
  assume "in_range s"
  then show ?thesis using Move
    by (cases m) (simp_all add: in_range_move_servo in_range_move_all)
qed

lemma in_range_do_calls: "in_range s \<Longrightarrow> in_range (do_calls cs s)"
  unfolding do_calls_def by (induction cs arbitrary: s) (simp_all add: in_range_do_call)

lemma in_range_initial: "in_range (initial_state ct)"
  by (simp add: in_range_def initial_state_def initial_channels_def)

text \<open>
  C4. From the initial state, after any sequence of \<open>set_servo_position\<close>, \<open>move_servo\<close>
  and \<open>move_all_servos\<close> calls with any integer arguments, every stored angle lies
  between 0 and 180.
\<close>

theorem angle_bounds:
  "\<forall>c p. servo_positions (do_calls cs (initial_state ct)) c = Some p \<longrightarrow> 0 \<le> p \<and> p \<le> 180"
  using in_range_do_calls [OF in_range_initial, of cs ct] by (simp add: in_range_def)

theorem angle_bounds_witness:
  "servo_positions
     (do_calls [SetServoPosition 0 500, Move (MoveServo 1 (- 40000)), Move (MoveAllServos 700)]
        (initial_state None)) 0 = Some 180 \<and> (0::int) \<le> 180 \<and> (180::int) \<le> 180"
  using angle_bounds [of "[SetServoPosition 0 500, Move (MoveServo 1 (- 40000)), Move (MoveAllServos 700)]" None]
  by (simp add: do_calls_def snd_move_servo snd_move_all_servos set_servo_position_def
      SERVO_CHANNELS_def initial_state_def initial_channels_def joystick_to_angle_def)

subsection \<open>Axis transform\<close>

lemma py_int_nonneg_div:
  "0 \<le> n \<Longrightarrow> py_int (real_of_int n / 65534 * 180) = n * 180 div 65534"
proof -
  assume "0 \<le> n"
  have "real_of_int n / 65534 * 180 = real_of_int (n * 180) / real_of_int 65534" by simp
  then have "\<lfloor>real_of_int n / 65534 * 180\<rfloor> = n * 180 div 65534"
    by (simp only: floor_divide_of_int_eq)
  with \<open>0 \<le> n\<close> show ?thesis by (simp add: py_int_def)
qed

lemma joystick_in_range:
  assumes "- 32767 \<le> raw" "raw \<le> 32767"
  shows "joystick_to_angle raw = Inr ((raw + 32767) * 180 div 65534)"
proof -
  let ?n = "raw + 32767"
  have n: "0 \<le> ?n" "?n \<le> 65534" using assms by simp_all
  have "\<bar>real_of_int ?n / 65534 * 180\<bar> \<le> 180"
    using n by simp
  moreover have "(180::real) < 2 ^ 1024"
  proof -
    have "(180::real) < 2 ^ 8" by simp
    also have "\<dots> \<le> 2 ^ 1024" by (rule power_increasing) simp_all
    finally show ?thesis .
  qed
  ultimately have "\<not> 2 ^ 1024 \<le> \<bar>real_of_int ?n / 65534 * 180\<bar>" by linarith
  then show ?thesis
    using py_int_nonneg_div [OF n(1)] by (simp add: joystick_to_angle_def Let_def)
qed

text \<open>
  The real-number reading of the float expression is safe on the declared domain. Unless
  \<open>raw + 32767\<close> is a multiple of 32767 (the values 0, 32767 and 65534, where the
  quotient 0, 0.5 or 1 and its product with 180 are exact in binary64), the exact
  value lies at least \<open>1 / 32767\<close> from every integer, so any \<open>y\<close> closer to it than
  that, as a value with only rounding error is, truncates to the same integer.
\<close>

lemma dvd_cancel_90: "32767 dvd n * 90 \<Longrightarrow> 32767 dvd n" for n :: int
proof -
  assume d: "(32767::int) dvd n * 90"
  have "(32767::int) dvd 13 * (32767 * n)" by simp
  moreover have "(32767::int) dvd 4733 * (n * 90)" using d by (rule dvd_mult)
  ultimately have "(32767::int) dvd 13 * (32767 * n) - 4733 * (n * 90)" by (rule dvd_diff)
  then show ?thesis by simp
qed

lemma truncation_margin:
  assumes n: "0 \<le> n" and nd: "\<not> 32767 dvd n"
    and y: "\<bar>y - real_of_int n / 65534 * 180\<bar> < 1 / 32767"
  shows "py_int y = n * 180 div 65534"
proof -
  define k where "k = n * 90 div 32767"
  define m where "m = n * 90 mod 32767"
  have nm: "n * 90 = 32767 * k + m" by (simp add: k_def m_def)
  have "m \<noteq> 0" using nd dvd_cancel_90 [of n] by (auto simp: m_def dvd_eq_mod_eq_0)
  moreover have "0 \<le> m" "m < 32767" by (simp_all add: m_def)
  ultimately have m: "1 \<le> m" "m \<le> 32766" by simp_all
  have k: "0 \<le> k" using n by (simp add: k_def pos_imp_zdiv_nonneg_iff)
  have "real_of_int n / 65534 * 180 = real_of_int (n * 90) / 32767" by simp
  also have "\<dots> = real_of_int k + real_of_int m / 32767" by (simp add: nm add_divide_distrib)
  finally have x: "real_of_int n / 65534 * 180 = real_of_int k + real_of_int m / 32767" .
  have m1: "1 / 32767 \<le> real_of_int m / 32767" using m(1) by (simp add: divide_right_mono)
  have m2: "real_of_int m / 32767 \<le> 32766 / 32767" using m(2) by (simp add: divide_right_mono)
  from y have "y - (real_of_int k + real_of_int m / 32767) < 1 / 32767"
    "real_of_int k + real_of_int m / 32767 - y < 1 / 32767"
    unfolding x by linarith+
  with m1 m2 have "real_of_int k < y" "y < real_of_int k + 1" by linarith+
  then have f: "\<lfloor>y\<rfloor> = k" by (simp add: floor_unique)
  have "0 \<le> y" using \<open>real_of_int k < y\<close> k by simp
  moreover have "n * 180 div 65534 = k"
  proof -
    have "n * 180 div 65534 = (2 * (n * 90)) div (2 * 32767)" by simp
    also have "\<dots> = n * 90 div 32767" by (rule div_mult_mult1) simp
    finally show ?thesis by (simp add: k_def)
  qed
  ultimately show ?thesis using f by (simp add: py_int_def)
qed

text \<open>
  C5, as the code has it. For \<open>raw\<close> between -32767 and 32767, \<open>joystick_to_angle\<close>
  returns \<open>((raw + 32767) / 65534) * 180\<close> with its fraction dropped (not rounded),
  an integer between 0 and 180, which is the rounded value or one less.
\<close>

theorem joystick_to_angle_truncates:
  assumes "- 32767 \<le> raw" and "raw \<le> 32767"
  shows "joystick_to_angle raw = Inr ((raw + 32767) * 180 div 65534) \<and>
         0 \<le> (raw + 32767) * 180 div 65534 \<and> (raw + 32767) * 180 div 65534 \<le> 180 \<and>
         (raw + 32767) * 180 div 65534 \<le> spec_angleFromAxis raw \<and>
         spec_angleFromAxis raw \<le> (raw + 32767) * 180 div 65534 + 1"
proof -
  let ?n = "raw + 32767"
  have n: "0 \<le> ?n" "?n \<le> 65534" using assms by simp_all
  have fl: "\<lfloor>real_of_int ?n / 65534 * 180\<rfloor> = ?n * 180 div 65534"
    using py_int_nonneg_div [OF n(1)] n(1) by (simp add: py_int_def)
  have lo: "0 \<le> ?n * 180 div 65534" using n(1) by (simp add: pos_imp_zdiv_nonneg_iff)
  have "?n * 180 \<le> 65534 * 180" using n(2) by simp
  then have "?n * 180 div 65534 \<le> 65534 * 180 div 65534" by (rule zdiv_mono1) simp
  then have hi: "?n * 180 div 65534 \<le> 180" by simp
  have r1: "\<lfloor>real_of_int ?n / 65534 * 180\<rfloor> \<le> round (real_of_int ?n / 65534 * 180)"
    unfolding round_def by (rule floor_mono) simp
  have "round (real_of_int ?n / 65534 * 180) \<le> \<lfloor>real_of_int ?n / 65534 * 180 + 1\<rfloor>"
    unfolding round_def by (rule floor_mono) simp
  then have r2: "round (real_of_int ?n / 65534 * 180) \<le> \<lfloor>real_of_int ?n / 65534 * 180\<rfloor> + 1"
    by simp
  show ?thesis
    using joystick_in_range [OF assms] lo hi r1 r2 unfolding fl spec_angleFromAxis_def by simp
qed

theorem joystick_to_angle_truncates_witness:
  "- 32767 \<le> (183::int) \<and> (183::int) \<le> 32767 \<and> joystick_to_angle 183 = Inr 90"
  using joystick_to_angle_truncates [of 183] by simp

text \<open>
  At \<open>raw = 183\<close> the exact value is about 90.503: the code returns 90, rounding gives 91.
\<close>

theorem joystick_to_angle_round_counterexample:
  "- 32767 \<le> (183::int) \<and> (183::int) \<le> 32767 \<and>
   joystick_to_angle 183 = Inr 90 \<and> spec_angleFromAxis 183 = 91"
  by (simp add: joystick_in_range spec_angleFromAxis_def round_def)

subsection \<open>Setting the same angle twice\<close>

text \<open>
  C6, as the code has it. For a configured channel and an angle between 0 and 180, the
  second of two successive \<open>set_servo_position\<close> calls with that angle leaves the
  direction neutral.
\<close>

theorem set_twice_neutral:
  assumes "ch \<in> set SERVO_CHANNELS" and "servo_positions s ch \<noteq> None"
    and "0 \<le> a" and "a \<le> 180"
  shows "servo_directions (snd (set_servo_position ch a (snd (set_servo_position ch a s)))) ch
           = Some Neutral"
proof -
  from assms(2) obtain p where p: "servo_positions s ch = Some p" by auto
  let ?s1 = "snd (set_servo_position ch a s)"
  have "servo_positions ?s1 ch = Some a"
    using set_servo_position_stored [OF assms(1) p, of a] assms(3,4) by simp
  from set_servo_position_stored [OF assms(1) this, of a] show ?thesis by simp
qed

theorem set_twice_neutral_witness:
  "2 \<in> set SERVO_CHANNELS \<and> servo_positions (initial_state None) 2 \<noteq> None \<and>
   servo_directions
     (snd (set_servo_position 2 45 (snd (set_servo_position 2 45 (initial_state None))))) 2
     = Some Neutral"
proof -
  have h: "2 \<in> set SERVO_CHANNELS" "servo_positions (initial_state None) 2 \<noteq> None"
    by (simp_all add: SERVO_CHANNELS_def initial_state_def initial_channels_def)
  from set_twice_neutral [OF h, of 45] h show ?thesis by simp
qed

text \<open>
  The direction comes from comparing the requested angle, before it is clamped, with the
  stored one: 200 requested twice on channel 0 leaves the direction \<open>Right\<close>.
\<close>

theorem set_twice_counterexample:
  "0 \<in> set SERVO_CHANNELS \<and>
   servo_directions
     (snd (set_servo_position 0 200 (snd (set_servo_position 0 200 (initial_state None))))) 0
     = Some Right"
  by (simp add: set_servo_position_def SERVO_CHANNELS_def initial_state_def initial_channels_def)

subsection \<open>The lock toggle\<close>

text \<open>
  No handler stores into \<open>lock_state\<close> of hardware.py: the event loop and the lock
  endpoint leave it as they find it.
\<close>

lemma move_servo_lock: "lock_state (snd (move_servo c v s)) = lock_state s"
  by (simp add: snd_move_servo set_servo_position_lock split: sum.split)

lemma move_all_loop_lock: "lock_state (snd (move_all_loop cs a r s)) = lock_state s"
proof (induction cs arbitrary: r s)
  case Nil
  then show ?case by simp
next
  case (Cons c cs)
  obtain res s' where r: "set_servo_position c a s = (res, s')"
    by (cases "set_servo_position c a s")
  then have "lock_state s' = lock_state s"
    using set_servo_position_lock [of c a s] by simp
  then show ?case
    using r Cons.IH by (simp split: option.splits bool.splits sum.splits)
qed

lemma move_all_servos_lock: "lock_state (snd (move_all_servos a s)) = lock_state s"
  by (simp add: snd_move_all_servos move_all_loop_lock)

lemma handle_axis_lock: "lock_state (handle_axis e s) = lock_state s"
proof -
  have "lock_state (snd r) = lock_state s \<Longrightarrow>
    lock_state (case r of (Inl err, s1) \<Rightarrow> s1
         | (Inr x, s1) \<Rightarrow>
             (if is_ps s1 then
                (if ev_code e = 2 then snd (move_servo 2 (ev_value e) s1)
                 else if ev_code e = 3 then snd (move_servo 3 (ev_value e) s1)
                 else s1)
              else
                (if ev_code e = 5 then snd (move_servo 3 (ev_value e) s1)
                 else if ev_code e = 4 then snd (move_servo 2 (ev_value e) s1)
                 else s1))) = lock_state s" for r :: "(error + (int \<times> int) option) \<times> state"
    by (cases r) (simp add: move_servo_lock split: sum.split)
  then show ?thesis
    unfolding handle_axis_def Let_def by (simp add: move_servo_lock)
qed

lemma toggle_hold_state_lock: "lock_state (toggle_hold_state c s) = lock_state s"
  by (simp add: toggle_hold_state_def split: option.split)

lemma exit_press_lock: "lock_state (exit_press s) = lock_state s"
  by (simp add: exit_press_def)

lemma if_lock:
  "lock_state a = l \<Longrightarrow> lock_state b = l \<Longrightarrow> lock_state (if c then a else b) = l"
  by simp

lemma handle_button_lock: "lock_state (handle_button e s) = lock_state s"
  unfolding handle_button_def Let_def
  by (intro if_lock)
    (simp_all add: move_all_servos_lock toggle_hold_state_lock exit_press_lock)

lemma handle_event_lock: "lock_state (handle_event e s) = lock_state s"
  by (simp add: handle_event_def handle_axis_lock handle_button_lock)

lemma handle_controller_input_lock: "lock_state (handle_controller_input es s) = lock_state s"
  by (induction es arbitrary: s) (simp_all add: handle_event_lock)

lemma toggle_lock_lock: "lock_state (snd (toggle_lock data s)) = lock_state s"
  by (simp add: toggle_lock_def Let_def)

lemma handle_button_dpad_down:
  "controller_type s = Some PS3 \<Longrightarrow> handle_event (press t 302) s = s\<lparr>ci_lock_state := \<not> ci_lock_state s\<rparr>"
  by (simp add: handle_event_def handle_button_def press_def EV_KEY_def EV_ABS_def is_ps_def Let_def)

lemma after_dpad_down_eq: "after_dpad_down = (initial_state (Some PS3))\<lparr>ci_lock_state := True\<rparr>"
  by (simp add: after_dpad_down_def handle_button_dpad_down initial_state_def)

lemma after_api_lock_eq: "after_api_lock = (initial_state None)\<lparr>web_lock_state := True\<rparr>"
  by (simp add: after_api_lock_def toggle_lock_def field_def initial_state_def)

lemma joystick_max: "joystick_to_angle 32767 = Inr 180"
  by (simp add: joystick_in_range)

text \<open>
  C1, on the code. The D-pad Down handler and the lock endpoint flip \<open>ci_lock_state\<close> and
  \<open>web_lock_state\<close>, the bindings of their own modules; \<open>lock_state\<close> of hardware.py,
  which \<open>move_servo\<close> and \<open>move_all_servos\<close> test, stays false. After the toggle a
  \<open>move_servo\<close> call takes channel 0 from 90 to 180 and a \<open>move_all_servos\<close> call
  takes channel 3 from 90 to 0.
\<close>

theorem lock_toggle_not_honoured:
  "ci_lock_state after_dpad_down \<and> \<not> lock_state after_dpad_down \<and>
   servo_positions after_dpad_down 0 = Some 90 \<and>
   servo_positions (do_moves [MoveServo 0 32767] after_dpad_down) 0 = Some 180 \<and>
   web_lock_state after_api_lock \<and> \<not> lock_state after_api_lock \<and>
   servo_positions after_api_lock 3 = Some 90 \<and>
   servo_positions (do_moves [MoveAllServos 0] after_api_lock) 3 = Some 0"
  by (simp add: after_dpad_down_eq after_api_lock_eq do_moves_def snd_move_servo
      snd_move_all_servos joystick_max set_servo_position_def SERVO_CHANNELS_def
      initial_state_def initial_channels_def)

subsection \<open>Validation in the single-servo endpoint\<close>

text \<open>
  C7, as the code has it. A channel that is not configured is refused with status 400
  and the state is untouched. An integer angle outside 0 to 180 on a configured channel
  is not refused: the handler answers with success, the channel stores the clamped angle,
  its direction is set from comparing the requested angle with the angle stored before,
  and hold and lock flags stay as they were.
\<close>

theorem control_servo_validation:
  "(int channel \<notin> set SERVO_CHANNELS \<longrightarrow>
      control_servo channel data s = (Failure InvalidChannel 400, s)) \<and>
   (int channel \<in> set SERVO_CHANNELS \<and> servo_positions s (int channel) = Some p \<and>
    field data ''angle'' = Some (JInt angle) \<and> (angle < 0 \<or> 180 < angle) \<longrightarrow>
      fst (control_servo channel data s) =
        Success [(''success'', JBool True), (''channel'', JInt (int channel)), (''angle'', JInt angle)] \<and>
      servo_positions (snd (control_servo channel data s)) (int channel) =
        Some (max 0 (min 180 angle)) \<and>
      servo_directions (snd (control_servo channel data s)) (int channel) =
        Some (if angle > p then (if int channel \<in> {1, 2} then Up else Right)
              else if angle < p then (if int channel \<in> {1, 2} then Down else Left)
              else Neutral) \<and>
      hold_state (snd (control_servo channel data s)) = hold_state s \<and>
      lock_state (snd (control_servo channel data s)) = lock_state s \<and>
      ci_lock_state (snd (control_servo channel data s)) = ci_lock_state s \<and>
      web_lock_state (snd (control_servo channel data s)) = web_lock_state s)"
proof -
  have unknown: "control_servo channel data s = (Failure InvalidChannel 400, s)"
    if "int channel \<notin> set SERVO_CHANNELS"
    using that by (simp add: control_servo_def)
  have clamped: "control_servo channel data s =
      (Success [(''success'', JBool True), (''channel'', JInt (int channel)), (''angle'', JInt angle)],
       s\<lparr>servo_directions := (servo_directions s)
            (int channel \<mapsto> if angle > p then (if int channel \<in> {1, 2} then Up else Right)
                 else if angle < p then (if int channel \<in> {1, 2} then Down else Left)
                 else Neutral),
         servo_positions := (servo_positions s)(int channel \<mapsto> max 0 (min 180 angle))\<rparr>)"
    if c: "int channel \<in> set SERVO_CHANNELS" and q: "servo_positions s (int channel) = Some p"
      and f: "field data ''angle'' = Some (JInt angle)"
    using c f set_servo_position_stored [OF c q, of angle]
    by (simp add: control_servo_def int_of_jvalue_def)
  show ?thesis
  proof (intro conjI impI)
    assume "int channel \<notin> set SERVO_CHANNELS"
    then show "control_servo channel data s = (Failure InvalidChannel 400, s)" by (rule unknown)
  next
    assume a: "int channel \<in> set SERVO_CHANNELS \<and> servo_positions s (int channel) = Some p \<and>
      field data ''angle'' = Some (JInt angle) \<and> (angle < 0 \<or> 180 < angle)"
    then have r: "control_servo channel data s =
      (Success [(''success'', JBool True), (''channel'', JInt (int channel)), (''angle'', JInt angle)],
       s\<lparr>servo_directions := (servo_directions s)
            (int channel \<mapsto> if angle > p then (if int channel \<in> {1, 2} then Up else Right)
                 else if angle < p then (if int channel \<in> {1, 2} then Down else Left)
                 else Neutral),
         servo_positions := (servo_positions s)(int channel \<mapsto> max 0 (min 180 angle))\<rparr>)"
      using clamped by blast
    show "fst (control_servo channel data s) =
        Success [(''success'', JBool True), (''channel'', JInt (int channel)), (''angle'', JInt angle)]"
      unfolding r by simp
    show "servo_positions (snd (control_servo channel data s)) (int channel) =
        Some (max 0 (min 180 angle))"
      unfolding r by simp
    show "servo_directions (snd (control_servo channel data s)) (int channel) =
        Some (if angle > p then (if int channel \<in> {1, 2} then Up else Right)
              else if angle < p then (if int channel \<in> {1, 2} then Down else Left)
              else Neutral)"
      unfolding r by simp
    show "hold_state (snd (control_servo channel data s)) = hold_state s"
      unfolding r by simp
    show "lock_state (snd (control_servo channel data s)) = lock_state s"
      unfolding r by simp
    show "ci_lock_state (snd (control_servo channel data s)) = ci_lock_state s"
      unfolding r by simp
    show "web_lock_state (snd (control_servo channel data s)) = web_lock_state s"
      unfolding r by simp
  qed
qed

theorem control_servo_validation_witness:
  "int 7 \<notin> set SERVO_CHANNELS \<and>
   control_servo 7 (Some [(''angle'', JInt 45)]) (initial_state None)
     = (Failure InvalidChannel 400, initial_state None) \<and>
   int 0 \<in> set SERVO_CHANNELS \<and> servo_positions (initial_state None) (int 0) = Some 90 \<and>
   field (Some [(''angle'', JInt 200)]) ''angle'' = Some (JInt 200) \<and>
   ((200::int) < 0 \<or> (180::int) < 200) \<and>
   servo_positions (snd (control_servo 0 (Some [(''angle'', JInt 200)]) (initial_state None))) (int 0)
     = Some 180 \<and>
   servo_directions (snd (control_servo 0 (Some [(''angle'', JInt 200)]) (initial_state None))) (int 0)
     = Some Right"
proof -
  have h: "int 7 \<notin> set SERVO_CHANNELS" "int 0 \<in> set SERVO_CHANNELS"
    "servo_positions (initial_state None) (int 0) = Some 90"
    "field (Some [(''angle'', JInt 200)]) ''angle'' = Some (JInt 200)"
    by (simp_all add: SERVO_CHANNELS_def initial_state_def initial_channels_def field_def)
  from control_servo_validation [of 7 "Some [(''angle'', JInt 45)]" "initial_state None" 90 0]
    control_servo_validation [of 0 "Some [(''angle'', JInt 200)]" "initial_state None" 90 200] h
  show ?thesis by simp
qed

text \<open>
  An angle of 200 for channel 0 is answered with success; the stored angle goes from 90 to
  180 and the direction from neutral to right.
\<close>

theorem control_servo_out_of_range_counterexample:
  "int 0 \<in> set SERVO_CHANNELS \<and> \<not> (200::int) \<le> 180 \<and>
   servo_positions (initial_state None) 0 = Some 90 \<and>
   servo_directions (initial_state None) 0 = Some Neutral \<and>
   fst (control_servo 0 (Some [(''angle'', JInt 200)]) (initial_state None))
     = Success [(''success'', JBool True), (''channel'', JInt 0), (''angle'', JInt 200)] \<and>
   servo_positions (snd (control_servo 0 (Some [(''angle'', JInt 200)]) (initial_state None))) 0
     = Some 180 \<and>
   servo_directions (snd (control_servo 0 (Some [(''angle'', JInt 200)]) (initial_state None))) 0
     = Some Right"
  by (simp add: control_servo_def field_def int_of_jvalue_def set_servo_position_def
      SERVO_CHANNELS_def initial_state_def initial_channels_def)

subsection \<open>A sampler tick with a failing query\<close>

lemma update_with_device:
  "mpu_connected m \<Longrightarrow> mpu m = Some dev \<Longrightarrow>
   update_mpu_data now m = m\<lparr>mpu_data := read_device dev (mpu_data m)\<rparr>"
  by (simp add: update_mpu_data_def)

text \<open>
  C8, as the code has it. When the accelerometer query raises, the whole snapshot is
  kept. When the gyroscope query raises, the accelerometer fields already hold the new
  reading and the rest is kept; when the temperature query raises, accelerometer and
  gyroscope fields hold the new readings and temperature and directions are kept.
\<close>

theorem failed_tick_snapshot:
  assumes "mpu_connected m" and "mpu m = Some dev"
  shows "(\<forall>e. get_accel_data dev = Inl e \<longrightarrow> update_mpu_data now m = m) \<and>
         (\<forall>ax ay az e. get_accel_data dev = Inr (ax, ay, az) \<and> get_gyro_data dev = Inl e \<longrightarrow>
            mpu_data (update_mpu_data now m) =
              (mpu_data m)\<lparr>accel_x := ax, accel_y := ay, accel_z := az\<rparr>) \<and>
         (\<forall>ax ay az gx gy gz e.
            get_accel_data dev = Inr (ax, ay, az) \<and> get_gyro_data dev = Inr (gx, gy, gz) \<and>
            get_temp dev = Inl e \<longrightarrow>
            mpu_data (update_mpu_data now m) =
              (mpu_data m)\<lparr>accel_x := ax, accel_y := ay, accel_z := az,
                           gyro_x := gx, gyro_y := gy, gyro_z := gz\<rparr>)"
  unfolding update_with_device [OF assms]
  by (simp add: read_device_def)

theorem failed_tick_snapshot_witness:
  "mpu_connected (with_device accel_fails) \<and> mpu (with_device accel_fails) = Some accel_fails \<and>
   get_accel_data accel_fails = Inl DeviceError \<and>
   update_mpu_data clock0 (with_device accel_fails) = with_device accel_fails \<and>
   mpu_connected (with_device gyro_fails) \<and> mpu (with_device gyro_fails) = Some gyro_fails \<and>
   get_accel_data gyro_fails = Inr (1, 2, 10) \<and> get_gyro_data gyro_fails = Inl DeviceError \<and>
   mpu_data (update_mpu_data clock0 (with_device gyro_fails)) =
     initial_mpu_data\<lparr>accel_x := 1, accel_y := 2, accel_z := 10\<rparr> \<and>
   mpu_connected (with_device temp_fails) \<and> mpu (with_device temp_fails) = Some temp_fails \<and>
   get_accel_data temp_fails = Inr (1, 2, 10) \<and> get_gyro_data temp_fails = Inr (3, 4, 5) \<and>
   get_temp temp_fails = Inl DeviceError \<and>
   mpu_data (update_mpu_data clock0 (with_device temp_fails)) =
     initial_mpu_data\<lparr>accel_x := 1, accel_y := 2, accel_z := 10,
                      gyro_x := 3, gyro_y := 4, gyro_z := 5\<rparr>"
proof -
  have h: "mpu_connected (with_device dev)" "mpu (with_device dev) = Some dev"
    "mpu_data (with_device dev) = initial_mpu_data" for dev
    by (simp_all add: with_device_def)
  have qa: "get_accel_data accel_fails = Inl DeviceError"
    by (simp add: accel_fails_def)
  have qg: "get_accel_data gyro_fails = Inr (1, 2, 10)" "get_gyro_data gyro_fails = Inl DeviceError"
    by (simp_all add: gyro_fails_def)
  have qt: "get_accel_data temp_fails = Inr (1, 2, 10)" "get_gyro_data temp_fails = Inr (3, 4, 5)"
    "get_temp temp_fails = Inl DeviceError"
    by (simp_all add: temp_fails_def)
  from failed_tick_snapshot [OF h(1,2), of accel_fails clock0] qa
  have a: "update_mpu_data clock0 (with_device accel_fails) = with_device accel_fails"
    by blast
  from failed_tick_snapshot [OF h(1,2), of gyro_fails clock0] qg
  have g: "mpu_data (update_mpu_data clock0 (with_device gyro_fails)) =
     (mpu_data (with_device gyro_fails))\<lparr>accel_x := 1, accel_y := 2, accel_z := 10\<rparr>"
    by blast
  from failed_tick_snapshot [OF h(1,2), of temp_fails clock0] qt
  have t: "mpu_data (update_mpu_data clock0 (with_device temp_fails)) =
     (mpu_data (with_device temp_fails))\<lparr>accel_x := 1, accel_y := 2, accel_z := 10,
                                      gyro_x := 3, gyro_y := 4, gyro_z := 5\<rparr>"
    by blast
  from a g t h qa qg qt show ?thesis by simp
qed

text \<open>
  With a gyroscope query that raises after the accelerometer has answered (1, 2, 10), the
  tick leaves \<open>accel_z = 10\<close> next to the old \<open>direction_z\<close>.
\<close>

theorem failed_tick_partial_counterexample:
  "mpu_connected (with_device gyro_fails) \<and> mpu (with_device gyro_fails) = Some gyro_fails \<and>
   get_gyro_data gyro_fails = Inl DeviceError \<and>
   accel_z (mpu_data (with_device gyro_fails)) = 0 \<and>
   accel_z (mpu_data (update_mpu_data clock0 (with_device gyro_fails))) = 10 \<and>
   direction_z (mpu_data (update_mpu_data clock0 (with_device gyro_fails))) = Neutral \<and>
   mpu_data (update_mpu_data clock0 (with_device gyro_fails)) \<noteq> mpu_data (with_device gyro_fails)"
proof -
  have "mpu_data (update_mpu_data clock0 (with_device gyro_fails)) =
     initial_mpu_data\<lparr>accel_x := 1, accel_y := 2, accel_z := 10\<rparr>"
    by (simp add: update_mpu_data_def with_device_def gyro_fails_def read_device_def)
  then show ?thesis
    by (simp add: with_device_def gyro_fails_def initial_mpu_data_def)
qed

subsection \<open>Exit confirmation\<close>

text \<open>The handler never reads the timestamp of an event.\<close>

lemma handle_axis_timestamp:
  "handle_axis (e\<lparr>ev_sec := t, ev_usec := u\<rparr>) s = handle_axis e s"
  by (simp add: handle_axis_def cong: if_cong sum.case_cong)

lemma handle_button_timestamp:
  "handle_button (e\<lparr>ev_sec := t, ev_usec := u\<rparr>) s = handle_button e s"
  by (simp add: handle_button_def)

lemma handle_event_timestamp:
  "handle_event (e\<lparr>ev_sec := t, ev_usec := u\<rparr>) s = handle_event e s"
  by (simp add: handle_event_def handle_axis_timestamp handle_button_timestamp)

lemma ps_press: "controller_type s = Some PS3 \<Longrightarrow> handle_event (press t 292) s = exit_press s"
  by (simp add: handle_event_def handle_button_def press_def EV_KEY_def EV_ABS_def is_ps_def Let_def)

lemma q_press: "controller_type s = Some Xbox \<Longrightarrow> handle_event (press t KEY_Q) s = exit_press s"
  by (simp add: handle_event_def handle_button_def press_def EV_KEY_def EV_ABS_def is_ps_def Let_def
      KEY_Q_def BTN_SOUTH_def BTN_EAST_def BTN_WEST_def BTN_NORTH_def BTN_TL_def BTN_TR_def
      BTN_DPAD_UP_def BTN_DPAD_DOWN_def BTN_DPAD_LEFT_def BTN_DPAD_RIGHT_def)

text \<open>
  C9, on the code. The first PS or Q press sets \<open>q_pressed\<close> and not \<open>exit_flag\<close>;
  nothing clears \<open>q_pressed\<close> afterwards, so a second press sets \<open>exit_flag\<close> also
  when it comes 10 seconds, or an hour, after the first.
\<close>

theorem late_second_press_exits:
  "q_pressed (handle_controller_input [press 0 292] (initial_state (Some PS3))) \<and>
   \<not> exit_flag (handle_controller_input [press 0 292] (initial_state (Some PS3))) \<and>
   exit_flag (handle_controller_input [press 0 292, press 10 292] (initial_state (Some PS3))) \<and>
   exit_flag (handle_controller_input [press 0 KEY_Q, press 3600 KEY_Q] (initial_state (Some Xbox)))"
  by (simp add: ps_press q_press exit_press_def initial_state_def)

subsection \<open>Simulated z axis\<close>

lemma simulate_z:
  "direction_z (simulate now d) = Neutral \<and> \<bar>accel_z (simulate now d) - 9.8\<bar> \<le> 0.2"
proof -
  have s: "- 1 \<le> sin (now 2 * 0.3)" "sin (now 2 * 0.3) \<le> 1" by simp_all
  then have "\<not> 9.8 + sin (now 2 * 0.3) * 0.2 > 9.8 + 0.3"
    "\<not> 9.8 + sin (now 2 * 0.3) * 0.2 < 9.8 - 0.3" by linarith+
  moreover from s have "\<bar>(9.8 + sin (now 2 * 0.3) * 0.2) - 9.8\<bar> \<le> 0.2"
    by (simp add: abs_le_iff)
  ultimately show ?thesis by (simp add: simulate_def Let_def)
qed

text \<open>
  C10. Without a connected device, a sampler tick classifies the z axis as neutral at
  every clock reading: the synthetic value stays within 0.2 of 9.8, inside the
  threshold 0.3.
\<close>

theorem simulation_z_neutral:
  assumes "\<not> (mpu_connected m \<and> mpu m \<noteq> None)"
  shows "direction_z (mpu_data (update_mpu_data now m)) = Neutral \<and>
         \<bar>accel_z (mpu_data (update_mpu_data now m)) - 9.8\<bar> \<le> 0.2"
proof -
  from assms have "update_mpu_data now m = m\<lparr>mpu_data := simulate now (mpu_data m)\<rparr>"
    by (auto simp: update_mpu_data_def split: bool.splits option.splits)
  then show ?thesis using simulate_z [of now "mpu_data m"] by simp
qed

theorem simulation_z_neutral_witness:
  "\<not> (mpu_connected no_device \<and> mpu no_device \<noteq> None) \<and>
   direction_z (mpu_data (update_mpu_data clock0 no_device)) = Neutral"
proof -
  have h: "\<not> (mpu_connected no_device \<and> mpu no_device \<noteq> None)" by (simp add: no_device_def)
  from simulation_z_neutral [OF h, of clock0] h show ?thesis by simp
qed

end
